theory Spec2Isabelle
  imports Complex_Main "HOL-Library.Sublist"
begin

section \<open>Strings and insertion-ordered dictionaries\<close>

text \<open>
  Python strings are modelled as \<open>string\<close>. \<open>str.lower()\<close> is modelled on the ASCII
  letters: \<open>A\<close>..\<open>Z\<close> are mapped to \<open>a\<close>..\<open>z\<close>, every other character is kept.
  The substring test \<open>a in b\<close> is \<open>sublist a b\<close> and \<open>s.endswith(t)\<close> is
  \<open>suffix t s\<close>.
\<close>

definition lower_char :: "char \<Rightarrow> char" where
  "lower_char c =
     (let n = (of_char c :: nat) in if 65 \<le> n \<and> n \<le> 90 then char_of (n + 32) else c)"

definition lower :: "string \<Rightarrow> string" where
  "lower s = map lower_char s"

text \<open>
  A Python \<open>dict\<close> keeps its keys in insertion order; assigning to a key that is already
  present replaces the value and keeps the key's position. It is modelled as an association
  list: \<open>dict_set\<close> is \<open>d[k] = v\<close>, \<open>map_of d k\<close> is the lookup, \<open>k in d\<close> is
  \<open>map_of d k \<noteq> None\<close>, and \<open>d.items()\<close> is the list itself.
\<close>

type_synonym ('k, 'v) dict = "('k \<times> 'v) list"

fun dict_set :: "('k, 'v) dict \<Rightarrow> 'k \<Rightarrow> 'v \<Rightarrow> ('k, 'v) dict" where
  "dict_set [] k v = [(k, v)]"
| "dict_set ((k', v') # d) k v =
     (if k' = k then (k, v) # d else (k', v') # dict_set d k v)"

datatype error =
  KeyError | ValueError | NameError | IndexError | EOFError | RequestError | HTTPError

text \<open>\<open>d[k]\<close> in an expression: raises \<open>KeyError\<close> when the key is missing.\<close>

definition dict_item :: "('k, 'v) dict \<Rightarrow> 'k \<Rightarrow> error + 'v" where
  "dict_item d k = (case map_of d k of None \<Rightarrow> Inl KeyError | Some v \<Rightarrow> Inr v)"

text \<open>Decimal rendering of an integer, as the f-string \<open>f"...{aid}"\<close> produces it.\<close>

fun str_nat :: "nat \<Rightarrow> string" where
  "str_nat n =
     (if n < 10 then [char_of (48 + n)]
      else str_nat (n div 10) @ [char_of (48 + n mod 10)])"

declare str_nat.simps [simp del]

definition str_int :: "int \<Rightarrow> string" where
  "str_int i = (if i < 0 then CHR ''-'' # str_nat (nat (- i)) else str_nat (nat i))"


section \<open>The catalog parser (\<open>anime_lookup.py\<close>, \<open>parse_anime_titles\<close>)\<close>

text \<open>
  The catalog is the parsed XML tree: \<open>root.findall('anime')\<close> is a list of anime
  elements, each with its optional \<open>aid\<close> attribute and its \<open>title\<close> children; a title
  element has its text (\<open>None\<close> for an empty element) and its optional \<open>type\<close> and
  \<open>xml:lang\<close> attributes.
\<close>

record title_elem =
  elem_text :: "string option"
  elem_type :: "string option"
  elem_lang :: "string option"

record anime_elem =
  elem_aid :: "string option"
  elem_titles :: "title_elem list"

text \<open>The dictionaries the parser builds.\<close>

record title =
  text_of :: string
  type_of :: string
  lang_of :: string

record anime =
  anime_aid :: int
  anime_main_title :: "string option"
  anime_titles :: "title list"
  anime_anidb_url :: string

record lookup =
  abbreviations :: "(string, int) dict"
  titles :: "(string, int) dict"
  anime_data :: "(int, anime) dict"

definition empty_lookup :: lookup where
  "empty_lookup = \<lparr>abbreviations = [], titles = [], anime_data = []\<rparr>"

text \<open>\<open>elem.get(name, 'unknown')\<close>.\<close>

definition get_default :: "string option \<Rightarrow> string" where
  "get_default a = (case a of None \<Rightarrow> ''unknown'' | Some v \<Rightarrow> v)"

text \<open>
  One pass of the inner loop over \<open>anime_elem.findall('title')\<close>. The loop state is
  \<open>(titles_list, main_title, lookup)\<close>.
\<close>

definition title_step ::
  "int \<Rightarrow> title list \<times> string option \<times> lookup \<Rightarrow> title_elem
     \<Rightarrow> title list \<times> string option \<times> lookup" where
  "title_step aid st title_elem =
     (case st of (titles_list, main_title, lookup) \<Rightarrow>
        (case elem_text title_elem of
           None \<Rightarrow> st
         | Some title_text \<Rightarrow>
             if title_text = [] then st
             else
               let title_type = get_default (elem_type title_elem);
                   lang = get_default (elem_lang title_elem);
                   titles_list' = titles_list @
                     [\<lparr>text_of = title_text, type_of = title_type, lang_of = lang\<rparr>];
                   main_title' =
                     (if title_type = ''main'' \<or> main_title = None then Some title_text
                      else main_title);
                   lookup' = lookup\<lparr>titles := dict_set (titles lookup) (lower title_text) aid\<rparr>;
                   lookup'' =
                     (if title_type = ''short''
                      then lookup'\<lparr>abbreviations :=
                             dict_set (abbreviations lookup') (lower title_text) aid\<rparr>
                      else lookup')
               in (titles_list', main_title', lookup'')))"

definition title_loop ::
  "int \<Rightarrow> title_elem list \<Rightarrow> lookup \<Rightarrow> title list \<times> string option \<times> lookup" where
  "title_loop aid elems lookup = foldl (title_step aid) ([], None, lookup) elems"

definition anidb_url_of :: "int \<Rightarrow> string" where
  "anidb_url_of aid = ''https://anidb.net/?aid='' @ str_int aid"

text \<open>
  The outer loop over \<open>root.findall('anime')\<close>. The builtin \<open>int\<close> is the parameter
  \<open>int_of\<close>: it returns \<open>None\<close> where \<open>int(aid)\<close> raises \<open>ValueError\<close>, which is not
  caught and ends the parse.
\<close>

fun parse_entries :: "(string \<Rightarrow> int option) \<Rightarrow> anime_elem list \<Rightarrow> lookup \<Rightarrow> error + lookup" where
  "parse_entries int_of [] lookup = Inr lookup"
| "parse_entries int_of (anime_elem # rest) lookup =
     (case elem_aid anime_elem of
        None \<Rightarrow> parse_entries int_of rest lookup
      | Some aid_str \<Rightarrow>
          if aid_str = [] then parse_entries int_of rest lookup
          else
            (case int_of aid_str of
               None \<Rightarrow> Inl ValueError
             | Some aid \<Rightarrow>
                 (case title_loop aid (elem_titles anime_elem) lookup of
                    (titles_list, main_title, lookup') \<Rightarrow>
                      parse_entries int_of rest
                        (lookup'\<lparr>anime_data := dict_set (anime_data lookup') aid
                           \<lparr>anime_aid = aid, anime_main_title = main_title,
                            anime_titles = titles_list,
                            anime_anidb_url = anidb_url_of aid\<rparr>\<rparr>))))"

text \<open>
  \<open>parse_anime_titles\<close>: the catalog file is \<open>None\<close> when the path does not exist, in
  which case the function returns the empty dictionary \<open>{}\<close>, modelled as \<open>Inr None\<close>.
\<close>

definition parse_anime_titles ::
  "(string \<Rightarrow> int option) \<Rightarrow> anime_elem list option \<Rightarrow> error + lookup option" where
  "parse_anime_titles int_of xml_file =
     (case xml_file of
        None \<Rightarrow> Inr None
      | Some entries \<Rightarrow>
          (case parse_entries int_of entries empty_lookup of
             Inl e \<Rightarrow> Inl e
           | Inr lookup \<Rightarrow> Inr (Some lookup)))"

text \<open>
  A reading of \<open>int\<close> on plain decimal literals (an optional minus sign and ASCII
  digits), used to run the parser on concrete catalogs.
\<close>

definition digit_val :: "char \<Rightarrow> nat option" where
  "digit_val c =
     (let n = (of_char c :: nat) in if 48 \<le> n \<and> n \<le> 57 then Some (n - 48) else None)"

fun digits_val :: "string \<Rightarrow> nat \<Rightarrow> nat option" where
  "digits_val [] acc = Some acc"
| "digits_val (c # cs) acc =
     (case digit_val c of None \<Rightarrow> None | Some d \<Rightarrow> digits_val cs (10 * acc + d))"

definition int_of_decimal :: "string \<Rightarrow> int option" where
  "int_of_decimal s =
     (case s of
        [] \<Rightarrow> None
      | c # cs \<Rightarrow>
          if c = CHR ''-'' then
            (if cs = [] then None else map_option (\<lambda>n. - int n) (digits_val cs 0))
          else map_option int (digits_val s 0))"


section \<open>The search (\<open>anime_lookup.py\<close>, \<open>search_anime\<close>)\<close>

type_synonym result = "int \<times> string option \<times> string"

definition result_of :: "int \<Rightarrow> anime \<Rightarrow> result" where
  "result_of aid anime = (aid, anime_main_title anime, anime_anidb_url anime)"

text \<open>The loop over \<open>lookup['abbreviations'].items()\<close>, with the list \<open>results\<close> as state.\<close>

fun abbr_loop :: "lookup \<Rightarrow> string \<Rightarrow> (string \<times> int) list \<Rightarrow> result list \<Rightarrow> error + result list" where
  "abbr_loop lookup query_lower [] results = Inr results"
| "abbr_loop lookup query_lower ((abbr, aid) # rest) results =
     (if sublist query_lower abbr \<or> sublist abbr query_lower then
        (case dict_item (anime_data lookup) aid of
           Inl e \<Rightarrow> Inl e
         | Inr anime \<Rightarrow> abbr_loop lookup query_lower rest (results @ [result_of aid anime]))
      else abbr_loop lookup query_lower rest results)"

text \<open>
  The loop over \<open>lookup['titles'].items()\<close>. The membership test is made on the triple
  \<open>(aid, title, url)\<close>, where \<open>title\<close> is the key of the title dictionary; the triple
  appended is \<open>(aid, anime['main_title'], anime['anidb_url'])\<close>.
\<close>

fun titles_loop :: "lookup \<Rightarrow> string \<Rightarrow> (string \<times> int) list \<Rightarrow> result list \<Rightarrow> error + result list" where
  "titles_loop lookup query_lower [] results = Inr results"
| "titles_loop lookup query_lower ((title, aid) # rest) results =
     (if sublist query_lower title then
        (case dict_item (anime_data lookup) aid of
           Inl e \<Rightarrow> Inl e
         | Inr anime \<Rightarrow>
             if (aid, Some title, anime_anidb_url anime) \<notin> set results
             then titles_loop lookup query_lower rest (results @ [result_of aid anime])
             else titles_loop lookup query_lower rest results)
      else titles_loop lookup query_lower rest results)"

definition search_anime :: "lookup \<Rightarrow> string \<Rightarrow> error + result list" where
  "search_anime lookup query =
     (let query_lower = lower query in
      case map_of (abbreviations lookup) query_lower of
        Some aid \<Rightarrow>
          (case dict_item (anime_data lookup) aid of
             Inl e \<Rightarrow> Inl e
           | Inr anime \<Rightarrow> Inr [result_of aid anime])
      | None \<Rightarrow>
          (case map_of (titles lookup) query_lower of
             Some aid \<Rightarrow>
               (case dict_item (anime_data lookup) aid of
                  Inl e \<Rightarrow> Inl e
                | Inr anime \<Rightarrow> Inr [result_of aid anime])
           | None \<Rightarrow>
               (case abbr_loop lookup query_lower (abbreviations lookup) [] of
                  Inl e \<Rightarrow> Inl e
                | Inr results \<Rightarrow>
                    (case titles_loop lookup query_lower (titles lookup) results of
                       Inl e \<Rightarrow> Inl e
                     | Inr results' \<Rightarrow> Inr (take 10 results')))))"


text \<open>
  Referential integrity of the tables: every id stored as a value of the abbreviation
  or title dictionary is a key of \<open>anime_data\<close>.
\<close>

definition ref_integrity :: "lookup \<Rightarrow> bool" where
  "ref_integrity lookup \<longleftrightarrow>
     snd ` set (abbreviations lookup) \<union> snd ` set (titles lookup)
       \<subseteq> fst ` set (anime_data lookup)"

definition ids_within :: "lookup \<Rightarrow> int set \<Rightarrow> bool" where
  "ids_within lookup A \<longleftrightarrow>
     snd ` set (abbreviations lookup) \<union> snd ` set (titles lookup) \<subseteq> A"

text \<open>
  The partial abbreviation matches in the order of the abbreviation keys, written as a
  comprehension: the reference against which the first loop of the search is compared.
\<close>

definition tier3 :: "lookup \<Rightarrow> string \<Rightarrow> result list" where
  "tier3 lookup query_lower =
     concat (map (\<lambda>(abbr, aid).
        if sublist query_lower abbr \<or> sublist abbr query_lower
        then (case map_of (anime_data lookup) aid of
                None \<Rightarrow> [] | Some anime \<Rightarrow> [result_of aid anime])
        else []) (abbreviations lookup))"

text \<open>
  The results the title tier adds to the results \<open>seen\<close> so far: the title keys are
  taken in their order, and a key that contains the query adds the result of its id
  unless the triple of the id, the key itself and the URL is among the results so far.
  It is the reference against which the second loop of the search is compared.
\<close>

fun tier4_from :: "lookup \<Rightarrow> string \<Rightarrow> (string \<times> int) list \<Rightarrow> result list \<Rightarrow> result list" where
  "tier4_from lookup query_lower [] seen = []"
| "tier4_from lookup query_lower ((title, aid) # rest) seen =
     (if sublist query_lower title then
        (case map_of (anime_data lookup) aid of
           None \<Rightarrow> tier4_from lookup query_lower rest seen
         | Some anime \<Rightarrow>
             if (aid, Some title, anime_anidb_url anime) \<in> set seen
             then tier4_from lookup query_lower rest seen
             else result_of aid anime
                    # tier4_from lookup query_lower rest (seen @ [result_of aid anime]))
      else tier4_from lookup query_lower rest seen)"

definition tier4 :: "lookup \<Rightarrow> string \<Rightarrow> result list" where
  "tier4 lookup query_lower =
     tier4_from lookup query_lower (titles lookup) (tier3 lookup query_lower)"

text \<open>
  Two readings of the main-title policy over the stored title list of an entry (the
  titles with non-empty text, in catalog order): the first title tagged \<open>main\<close>, else
  the first title; and the last title tagged \<open>main\<close>, else the first title.
\<close>

definition main_titles :: "title list \<Rightarrow> title list" where
  "main_titles ts = filter (\<lambda>t. type_of t = ''main'') ts"

definition first_title :: "title list \<Rightarrow> string option" where
  "first_title ts = (case ts of [] \<Rightarrow> None | t # _ \<Rightarrow> Some (text_of t))"

definition first_main_else_first :: "title list \<Rightarrow> string option" where
  "first_main_else_first ts =
     (if main_titles ts = [] then first_title ts
      else Some (text_of (hd (main_titles ts))))"

definition last_main_else_first :: "title list \<Rightarrow> string option" where
  "last_main_else_first ts =
     (if main_titles ts = [] then first_title ts
      else Some (text_of (last (main_titles ts))))"

text \<open>The titles of an entry that the parser stores: those with a non-empty text.\<close>

definition stored_titles :: "title_elem list \<Rightarrow> title list" where
  "stored_titles elems =
     List.map_filter
       (\<lambda>te. case elem_text te of
                None \<Rightarrow> None
              | Some t \<Rightarrow>
                  if t = [] then None
                  else Some \<lparr>text_of = t, type_of = get_default (elem_type te),
                             lang_of = get_default (elem_lang te)\<rparr>) elems"


text \<open>Every record of the table carries the main title selected from its own titles.\<close>

definition main_title_ok :: "lookup \<Rightarrow> bool" where
  "main_title_ok lookup \<longleftrightarrow>
     list_all (\<lambda>(aid, anime). anime_main_title anime = last_main_else_first (anime_titles anime))
       (anime_data lookup)"


section \<open>Payloads, the network and the bulk injection (\<open>inject_to_knowledge_base\<close>)\<close>

record payload =
  payload_id :: string
  payload_text :: string
  payload_url :: "string option"
  payload_title :: "string option"
  payload_source_type :: string
  payload_confidence :: real
  payload_timestamp :: string
  payload_sourceUser :: "string option"
  payload_tags :: "string list"
  payload_related_entities :: "string list"

text \<open>
  A call of \<open>requests.get\<close> or \<open>requests.post\<close> either raises an exception or returns
  a response with a status code and a body.
\<close>

datatype response = Raised | Response nat string

text \<open>
  The environment of a run: the values \<open>uuid.uuid4()\<close> and \<open>datetime.utcnow()\<close> give
  at the \<open>n\<close>-th submission, what the webhook answers to it, what a page fetch answers,
  \<open>urlparse(url).netloc\<close> (\<open>None\<close> where \<open>urlparse\<close> raises \<open>ValueError\<close>) and the
  text BeautifulSoup extracts from a page.
\<close>

record env =
  uuid4 :: "nat \<Rightarrow> string"
  utcnow :: "nat \<Rightarrow> string"
  http_post :: "nat \<Rightarrow> payload \<Rightarrow> response"
  http_get :: "string \<Rightarrow> response"
  netloc :: "string \<Rightarrow> string option"
  soup_text :: "string \<Rightarrow> string"

datatype event =
    Progress nat nat nat nat
  | HttpFailure nat "string option"
  | PostError "string option"
  | Complete nat nat
  | Skipping string
  | Scraping string
  | Scraped string
  | ErrorScraping string error
  | NoFacts
  | Sending nat nat
  | Status nat
  | ResponseText string
  | ErrorSending
  | Exiting

text \<open>\<open>sep.join(xs)\<close> and the f-string rendering of an optional string.\<close>

fun join :: "string \<Rightarrow> string list \<Rightarrow> string" where
  "join sep [] = []"
| "join sep [x] = x"
| "join sep (x # y # ys) = x @ sep @ join sep (y # ys)"

definition str_opt :: "string option \<Rightarrow> string" where
  "str_opt s = (case s of None \<Rightarrow> ''None'' | Some v \<Rightarrow> v)"

definition inject_payload :: "env \<Rightarrow> nat \<Rightarrow> anime \<Rightarrow> payload" where
  "inject_payload e idx a =
     \<lparr>payload_id = uuid4 e idx,
      payload_text = str_opt (anime_main_title a) @ '' - '' @
                     join '', '' (map text_of (anime_titles a)),
      payload_url = Some (anime_anidb_url a),
      payload_title = anime_main_title a,
      payload_source_type = ''anidb_metadata'',
      payload_confidence = 95 / 100,
      payload_timestamp = utcnow e idx @ ''Z'',
      payload_sourceUser = None,
      payload_tags = [''anime'', ''anidb'', ''metadata''],
      payload_related_entities = map text_of (take 5 (anime_titles a))\<rparr>"

record tally =
  success_count :: nat
  error_count :: nat
  requests :: "payload list"
  printed :: "event list"

text \<open>
  The loop over \<open>enumerate(lookup['anime_data'].items(), 1)\<close>: the \<open>try\<close> is inside the
  loop body, around the single \<open>requests.post\<close>.
\<close>

fun inject_loop :: "env \<Rightarrow> nat \<Rightarrow> nat \<Rightarrow> (int \<times> anime) list \<Rightarrow> tally \<Rightarrow> tally" where
  "inject_loop e n_total idx [] st = st"
| "inject_loop e n_total idx ((aid, a) # rest) st =
     (let st1 = (if idx mod 500 = 0
                 then st\<lparr>printed := printed st @
                        [Progress idx n_total (success_count st) (error_count st)]\<rparr>
                 else st);
          p = inject_payload e idx a;
          st2 = st1\<lparr>requests := requests st1 @ [p]\<rparr>;
          st3 = (case http_post e idx p of
                   Response status_code body \<Rightarrow>
                     if status_code = 200 \<or> status_code = 201
                     then st2\<lparr>success_count := success_count st2 + 1\<rparr>
                     else st2\<lparr>error_count := error_count st2 + 1,
                              printed := printed st2 @
                                [HttpFailure status_code (anime_main_title a)]\<rparr>
                 | Raised \<Rightarrow>
                     st2\<lparr>error_count := error_count st2 + 1,
                         printed := printed st2 @ [PostError (anime_main_title a)]\<rparr>)
      in inject_loop e n_total (idx + 1) rest st3)"

definition inject_to_knowledge_base :: "env \<Rightarrow> lookup \<Rightarrow> tally" where
  "inject_to_knowledge_base e lookup =
     (let st = inject_loop e (length (anime_data lookup)) 1 (anime_data lookup)
                 \<lparr>success_count = 0, error_count = 0, requests = [], printed = []\<rparr>
      in st\<lparr>printed := printed st @ [Complete (success_count st) (error_count st)]\<rparr>)"


section \<open>The domain exclusion list (\<open>load_excluded_domains_json\<close>)\<close>

text \<open>\<open>str.strip()\<close> on the ASCII whitespace characters, and \<open>str.split(sep)\<close> for a
  separator of one character.\<close>

definition is_space :: "char \<Rightarrow> bool" where
  "is_space c \<longleftrightarrow> (let n = (of_char c :: nat) in n = 32 \<or> (9 \<le> n \<and> n \<le> 13))"

definition strip :: "string \<Rightarrow> string" where
  "strip s = rev (dropWhile is_space (rev (dropWhile is_space s)))"

fun split_on :: "char \<Rightarrow> string \<Rightarrow> string list" where
  "split_on sep [] = [[]]"
| "split_on sep (c # cs) =
     (if c = sep then [] # split_on sep cs
      else (c # hd (split_on sep cs)) # tl (split_on sep cs))"

text \<open>
  The exclusions file: absent, not loadable as a list of objects with string fields, or a
  list of objects (each an association of field names and string values).
\<close>

datatype exclusions_file = Missing | Malformed | Entries "(string \<times> string) list list"

definition load_excluded_domains_json :: "exclusions_file \<Rightarrow> string set" where
  "load_excluded_domains_json file =
     (case file of
        Missing \<Rightarrow> {}
      | Malformed \<Rightarrow> {}
      | Entries data \<Rightarrow>
          set (List.map_filter
                 (\<lambda>entry. map_option (\<lambda>d. lower (strip d)) (map_of entry ''domain'')) data))"

text \<open>The veto: \<open>any(domain == ex or domain.endswith('.' + ex) for ex in excluded_domains)\<close>.\<close>

definition excluded :: "string set \<Rightarrow> string \<Rightarrow> bool" where
  "excluded excluded_domains domain \<longleftrightarrow>
     (\<exists>ex \<in> excluded_domains. domain = ex \<or> suffix (''.'' @ ex) domain)"

text \<open>
  The domain of a URL on the scraping path: \<open>urlparse(url).netloc.lower()\<close>, which
  raises \<open>ValueError\<close> where \<open>urlparse\<close> does.
\<close>

definition scrape_domain :: "env \<Rightarrow> string \<Rightarrow> error + string" where
  "scrape_domain e url =
     (case netloc e url of None \<Rightarrow> Inl ValueError | Some n \<Rightarrow> Inr (lower n))"

text \<open>
  The domain of a URL on the manual path:
  \<open>url.split('/')[2].lower() if '://' in url else url.lower()\<close>; the index raises
  \<open>IndexError\<close> when the split has fewer than three parts.
\<close>

definition manual_domain :: "string \<Rightarrow> error + string" where
  "manual_domain url =
     (if sublist ''://'' url then
        (let parts = split_on CHR ''/'' url
         in if 2 < length parts then Inr (lower (parts ! 2)) else Inl IndexError)
      else Inr (lower url))"

text \<open>
  A reading of \<open>urlparse(url).netloc\<close> for URLs of the form
  \<open>scheme://authority\<close> followed by nothing or by a path, query or fragment: the text
  after the first \<open>//\<close> up to the next \<open>/\<close>, \<open>?\<close> or \<open>#\<close>, and the empty
  string when the URL has no \<open>://\<close>. As in the library, an authority with one of the
  brackets \<open>[\<close> and \<open>]\<close> and not the other is refused (\<open>ValueError\<close>, here \<open>None\<close>).
  It is used to run the check on concrete URLs.
\<close>

fun after_scheme :: "string \<Rightarrow> string option" where
  "after_scheme (a # b # c # cs) =
     (if a = CHR '':'' \<and> b = CHR ''/'' \<and> c = CHR ''/'' then Some cs
      else after_scheme (b # c # cs))"
| "after_scheme _ = None"

definition authority :: "string \<Rightarrow> string" where
  "authority url =
     (case after_scheme url of
        None \<Rightarrow> []
      | Some r \<Rightarrow> takeWhile (\<lambda>c. c \<noteq> CHR ''/'' \<and> c \<noteq> CHR ''?'' \<and> c \<noteq> CHR ''#'') r)"

definition simple_netloc :: "string \<Rightarrow> string option" where
  "simple_netloc url =
     (let n = authority url
      in if (CHR ''['' \<in> set n) \<noteq> (CHR '']'' \<in> set n) then None else Some n)"



section \<open>The web scraper (\<open>scrape_to_n8n.py\<close>, \<open>scrape_and_send_to_n8n\<close>)\<close>

text \<open>
  The names \<open>facts\<close> and \<open>payload\<close> are read by the function, and no statement of the
  function or of the module assigns them. A name is modelled by its binding: \<open>None\<close> for
  an unbound name, whose evaluation raises \<open>NameError\<close>.
\<close>

definition load_name :: "'a option \<Rightarrow> error + 'a" where
  "load_name binding = (case binding of None \<Rightarrow> Inl NameError | Some v \<Rightarrow> Inr v)"

record names =
  facts :: "payload list option"
  payload_name :: "payload option"

definition initial_names :: names where
  "initial_names = \<lparr>facts = None, payload_name = None\<rparr>"

record scrape_state =
  bound :: names
  log :: "event list"

text \<open>
  The body of the \<open>try\<close> of the first loop, for a URL that is not excluded: the result is
  the exception raised inside it, or the state after \<open>facts.append(payload)\<close>.
\<close>

definition scrape_one :: "env \<Rightarrow> string \<Rightarrow> scrape_state \<Rightarrow> error \<times> scrape_state + scrape_state" where
  "scrape_one e url st =
     (let st1 = st\<lparr>log := log st @ [Scraping url]\<rparr> in
      case http_get e url of
        Raised \<Rightarrow> Inl (RequestError, st1)
      | Response status_code body \<Rightarrow>
          if 400 \<le> status_code \<and> status_code < 600 then Inl (HTTPError, st1)
          else
            (let st2 = st1\<lparr>log := log st1 @ [Scraped (take 500 (soup_text e body))]\<rparr> in
             case load_name (facts (bound st2)) of
               Inl err \<Rightarrow> Inl (err, st2)
             | Inr fs \<Rightarrow>
                 (case load_name (payload_name (bound st2)) of
                    Inl err \<Rightarrow> Inl (err, st2)
                  | Inr p \<Rightarrow> Inr (st2\<lparr>bound := (bound st2)\<lparr>facts := Some (fs @ [p])\<rparr>\<rparr>))))"

text \<open>
  The first loop, \<open>for url in urls\<close>. The domain is computed before the \<open>try\<close>: the
  \<open>ValueError\<close> of \<open>urlparse\<close> is not caught and ends the loop and the function; the
  result is then the error with the state reached.
\<close>

fun scrape_loop ::
  "env \<Rightarrow> string set \<Rightarrow> string list \<Rightarrow> scrape_state \<Rightarrow> error \<times> scrape_state + scrape_state" where
  "scrape_loop e excluded_domains [] st = Inr st"
| "scrape_loop e excluded_domains (url # urls) st =
     (case scrape_domain e url of
        Inl err \<Rightarrow> Inl (err, st)
      | Inr domain \<Rightarrow>
          if excluded excluded_domains domain
          then scrape_loop e excluded_domains urls (st\<lparr>log := log st @ [Skipping domain]\<rparr>)
          else
            (case scrape_one e url st of
               Inl (err, st') \<Rightarrow>
                 scrape_loop e excluded_domains urls
                   (st'\<lparr>log := log st' @ [ErrorScraping url err]\<rparr>)
             | Inr st' \<Rightarrow> scrape_loop e excluded_domains urls st'))"

text \<open>
  The second loop, \<open>for i, fact in enumerate(facts, 1)\<close>. The \<open>try\<close> is around the whole
  loop: an exception of \<open>requests.post\<close> ends the loop.
\<close>

record sent =
  posts :: "payload list"
  prints :: "event list"

fun send_loop :: "env \<Rightarrow> nat \<Rightarrow> nat \<Rightarrow> payload list \<Rightarrow> sent \<Rightarrow> sent" where
  "send_loop e n i [] s = s"
| "send_loop e n i (fct # rest) s =
     (let s1 = s\<lparr>posts := posts s @ [fct], prints := prints s @ [Sending i n]\<rparr> in
      case http_post e i fct of
        Raised \<Rightarrow> s1\<lparr>prints := prints s1 @ [ErrorSending]\<rparr>
      | Response status_code body \<Rightarrow>
          send_loop e n (i + 1) rest
            (s1\<lparr>prints := prints s1 @ [Status status_code, ResponseText body]\<rparr>))"

record run =
  outcome :: "error + unit"
  posted :: "payload list"
  shown :: "event list"

text \<open>
  The whole function. \<open>typed\<close> holds the lines typed on the terminal: the function reads
  two of them before the first loop (the tags and the related entities, which only feed
  \<open>tag_list\<close> and \<open>related_list\<close>, read by nothing afterwards), and \<open>input()\<close> raises
  \<open>EOFError\<close> when there is no line left. \<open>excluded_domains_path\<close> is \<open>None\<close> when no
  path is given.
\<close>

definition scrape_and_send_to_n8n ::
  "env \<Rightarrow> string list \<Rightarrow> string list \<Rightarrow> exclusions_file option \<Rightarrow> run" where
  "scrape_and_send_to_n8n e typed urls excluded_domains_path =
     (let excluded_domains =
            (case excluded_domains_path of
               None \<Rightarrow> {} | Some file \<Rightarrow> load_excluded_domains_json file)
      in if length typed < 2 then \<lparr>outcome = Inl EOFError, posted = [], shown = []\<rparr>
         else
           (case scrape_loop e excluded_domains urls \<lparr>bound = initial_names, log = []\<rparr> of
              Inl (err, st) \<Rightarrow> \<lparr>outcome = Inl err, posted = [], shown = log st\<rparr>
            | Inr st \<Rightarrow>
                (case load_name (facts (bound st)) of
                   Inl err \<Rightarrow> \<lparr>outcome = Inl err, posted = [], shown = log st\<rparr>
                 | Inr fs \<Rightarrow>
                     if fs = []
                     then \<lparr>outcome = Inr (), posted = [], shown = log st @ [NoFacts]\<rparr>
                     else
                       (let s = send_loop e (length fs) 1 fs \<lparr>posts = [], prints = log st\<rparr>
                        in \<lparr>outcome = Inr (), posted = posts s, shown = prints s\<rparr>))))"


section \<open>The manual entry (\<open>manual_fact_to_n8n.py\<close>, \<open>manual_fact_entry_and_send\<close>)\<close>

text \<open>
  The confidence typed by the user: \<open>float(confidence) if confidence else 1.0\<close>, and
  \<open>1.0\<close> when \<open>float\<close> raises. The builtin \<open>float\<close> is the parameter \<open>float_of\<close>,
  which returns \<open>None\<close> where \<open>float\<close> raises \<open>ValueError\<close>; floats are read as reals.
\<close>

definition read_confidence :: "(string \<Rightarrow> real option) \<Rightarrow> string \<Rightarrow> real" where
  "read_confidence float_of s =
     (if s = [] then 1 else (case float_of s of None \<Rightarrow> 1 | Some x \<Rightarrow> x))"

definition comma_list :: "string \<Rightarrow> string list" where
  "comma_list s =
     (if s = [] then []
      else filter (\<lambda>t. t \<noteq> []) (map strip (split_on CHR '','' s)))"

definition none_if_empty :: "string \<Rightarrow> string option" where
  "none_if_empty s = (if s = [] then None else Some s)"

definition manual_payload ::
  "env \<Rightarrow> (string \<Rightarrow> real option) \<Rightarrow> nat \<Rightarrow> string \<Rightarrow> string \<Rightarrow> string \<Rightarrow> string
     \<Rightarrow> string \<Rightarrow> string \<Rightarrow> string \<Rightarrow> payload" where
  "manual_payload e float_of k url ttl txt tgs src conf rel =
     \<lparr>payload_id = uuid4 e k,
      payload_text = txt,
      payload_url = none_if_empty url,
      payload_title = none_if_empty ttl,
      payload_source_type = (if src = [] then ''manual'' else src),
      payload_confidence = read_confidence float_of conf,
      payload_timestamp = utcnow e k @ ''Z'',
      payload_sourceUser = None,
      payload_tags = comma_list tgs,
      payload_related_entities = comma_list rel\<rparr>"

text \<open>
  The \<open>while True\<close> loop over the lines typed on the terminal (each line without its
  newline). \<open>input()\<close> on an exhausted terminal raises \<open>EOFError\<close>. Every pass reads at
  least one line, so the recursion is on a shorter list of lines. \<open>k\<close> counts the
  submissions.
\<close>

fun manual_loop ::
  "env \<Rightarrow> (string \<Rightarrow> real option) \<Rightarrow> string set \<Rightarrow> nat \<Rightarrow> string list \<Rightarrow> sent \<Rightarrow> run" where
  "manual_loop e float_of excluded_domains k [] s =
     \<lparr>outcome = Inl EOFError, posted = posts s, shown = prints s\<rparr>"
| "manual_loop e float_of excluded_domains k (l1 # ls) s =
     (let url = strip l1 in
      case (if url \<noteq> [] then manual_domain url else Inr []) of
        Inl err \<Rightarrow> \<lparr>outcome = Inl err, posted = posts s, shown = prints s\<rparr>
      | Inr domain \<Rightarrow>
          if url \<noteq> [] \<and> excluded excluded_domains domain
          then manual_loop e float_of excluded_domains k ls
                 (s\<lparr>prints := prints s @ [Skipping domain]\<rparr>)
          else
            (case ls of
               l2 # l3 # ls3 \<Rightarrow>
                 if lower (strip l3) = ''quit''
                 then \<lparr>outcome = Inr (), posted = posts s, shown = prints s @ [Exiting]\<rparr>
                 else
                   (case ls3 of
                      l4 # l5 # l6 # l7 # ls7 \<Rightarrow>
                        (let p = manual_payload e float_of k url (strip l2) (strip l3)
                                   (strip l4) (strip l5) (strip l6) (strip l7);
                             s1 = s\<lparr>posts := posts s @ [p]\<rparr>;
                             s2 = (case http_post e k p of
                                     Raised \<Rightarrow> s1\<lparr>prints := prints s1 @ [ErrorSending]\<rparr>
                                   | Response status_code body \<Rightarrow>
                                       s1\<lparr>prints := prints s1 @
                                            [Status status_code, ResponseText body]\<rparr>)
                         in manual_loop e float_of excluded_domains (k + 1) ls7 s2)
                    | _ \<Rightarrow> \<lparr>outcome = Inl EOFError, posted = posts s, shown = prints s\<rparr>)
             | _ \<Rightarrow> \<lparr>outcome = Inl EOFError, posted = posts s, shown = prints s\<rparr>))"

definition manual_fact_entry_and_send ::
  "env \<Rightarrow> (string \<Rightarrow> real option) \<Rightarrow> exclusions_file option \<Rightarrow> string list \<Rightarrow> run" where
  "manual_fact_entry_and_send e float_of excluded_domains_path stdin =
     (let excluded_domains =
            (case excluded_domains_path of
               None \<Rightarrow> {} | Some file \<Rightarrow> load_excluded_domains_json file)
      in manual_loop e float_of excluded_domains 1 stdin \<lparr>posts = [], prints = []\<rparr>)"

text \<open>
  A reading of \<open>float\<close> on plain decimal literals (ASCII digits with an optional
  fractional part), used to run the entry path on concrete input.
\<close>

definition float_of_decimal :: "string \<Rightarrow> real option" where
  "float_of_decimal s =
     (let ip = takeWhile (\<lambda>c. c \<noteq> CHR ''.'') s;
          fp = drop 1 (dropWhile (\<lambda>c. c \<noteq> CHR ''.'') s)
      in if ip = [] \<and> fp = [] then None
         else (case (digits_val ip 0, digits_val fp 0) of
                 (Some i, Some f) \<Rightarrow> Some (real i + real f / 10 ^ length fp)
               | _ \<Rightarrow> None))"


section \<open>Concrete catalogs, tables and runs\<close>

definition mk_title :: "string \<Rightarrow> string \<Rightarrow> title_elem" where
  "mk_title txt ty = \<lparr>elem_text = Some txt, elem_type = Some ty, elem_lang = Some ''en''\<rparr>"

definition stored :: "string \<Rightarrow> string \<Rightarrow> title" where
  "stored txt ty = \<lparr>text_of = txt, type_of = ty, lang_of = ''en''\<rparr>"

text \<open>The catalog entry 21 with the main title One Piece and the short title OP.\<close>

definition op_catalog :: "anime_elem list" where
  "op_catalog =
     [\<lparr>elem_aid = Some ''21'',
       elem_titles = [mk_title ''One Piece'' ''main'', mk_title ''OP'' ''short'']\<rparr>]"

definition op_anime :: anime where
  "op_anime =
     \<lparr>anime_aid = 21, anime_main_title = Some ''One Piece'',
      anime_titles = [stored ''One Piece'' ''main'', stored ''OP'' ''short''],
      anime_anidb_url = ''https://anidb.net/?aid=21''\<rparr>"

definition op_lookup :: lookup where
  "op_lookup =
     \<lparr>abbreviations = [(''op'', 21)],
      titles = [(''one piece'', 21), (''op'', 21)],
      anime_data = [(21, op_anime)]\<rparr>"

text \<open>The same catalog followed by the entry 22 with the main title Opera.\<close>

definition opera_catalog :: "anime_elem list" where
  "opera_catalog =
     op_catalog @ [\<lparr>elem_aid = Some ''22'', elem_titles = [mk_title ''Opera'' ''main'']\<rparr>]"

definition opera_anime :: anime where
  "opera_anime =
     \<lparr>anime_aid = 22, anime_main_title = Some ''Opera'',
      anime_titles = [stored ''Opera'' ''main''],
      anime_anidb_url = ''https://anidb.net/?aid=22''\<rparr>"

definition opera_lookup :: lookup where
  "opera_lookup =
     \<lparr>abbreviations = [(''op'', 21)],
      titles = [(''one piece'', 21), (''op'', 21), (''opera'', 22)],
      anime_data = [(21, op_anime), (22, opera_anime)]\<rparr>"

text \<open>An entry with two titles that both contain the query \<open>one p\<close>.\<close>

definition film_catalog :: "anime_elem list" where
  "film_catalog =
     [\<lparr>elem_aid = Some ''21'',
       elem_titles = [mk_title ''One Piece'' ''main'', mk_title ''One Piece Film'' ''official'']\<rparr>]"

definition film_anime :: anime where
  "film_anime =
     \<lparr>anime_aid = 21, anime_main_title = Some ''One Piece'',
      anime_titles = [stored ''One Piece'' ''main'', stored ''One Piece Film'' ''official''],
      anime_anidb_url = ''https://anidb.net/?aid=21''\<rparr>"

definition film_lookup :: lookup where
  "film_lookup =
     \<lparr>abbreviations = [],
      titles = [(''one piece'', 21), (''one piece film'', 21)],
      anime_data = [(21, film_anime)]\<rparr>"

text \<open>An entry with two titles tagged \<open>main\<close>.\<close>

definition two_main_catalog :: "anime_elem list" where
  "two_main_catalog =
     [\<lparr>elem_aid = Some ''1'',
       elem_titles = [mk_title ''Alpha'' ''main'', mk_title ''Beta'' ''main'']\<rparr>]"

definition two_main_anime :: anime where
  "two_main_anime =
     \<lparr>anime_aid = 1, anime_main_title = Some ''Beta'',
      anime_titles = [stored ''Alpha'' ''main'', stored ''Beta'' ''main''],
      anime_anidb_url = ''https://anidb.net/?aid=1''\<rparr>"

definition two_main_lookup :: lookup where
  "two_main_lookup =
     \<lparr>abbreviations = [],
      titles = [(''alpha'', 1), (''beta'', 1)],
      anime_data = [(1, two_main_anime)]\<rparr>"

text \<open>A table in which twelve title keys contain the query \<open>a\<close>.\<close>

definition many_lookup :: lookup where
  "many_lookup =
     \<lparr>abbreviations = [],
      titles = map (\<lambda>n. (''a'' @ str_nat n, 1)) [0..<12],
      anime_data =
        [(1, \<lparr>anime_aid = 1, anime_main_title = Some ''Zed'', anime_titles = [],
               anime_anidb_url = anidb_url_of 1\<rparr>)]\<rparr>"

text \<open>
  An environment in which every page fetch succeeds and the webhook answers the second
  submission with status 500 and every other one with status 200.
\<close>

definition demo_env :: env where
  "demo_env =
     \<lparr>uuid4 = (\<lambda>n. ''id-'' @ str_nat n),
      utcnow = (\<lambda>n. ''2026-02-01T12:00:00''),
      http_post = (\<lambda>n p. if n = 2 then Response 500 ''error'' else Response 200 ''ok''),
      http_get = (\<lambda>url. Response 200 ''page''),
      netloc = simple_netloc,
      soup_text = (\<lambda>body. body)\<rparr>"

definition three_urls :: "string list" where
  "three_urls = [''https://a.example/1'', ''https://b.example/2'', ''https://c.example/3'']"

text \<open>The two answers typed at the prompts of the scraping function, both empty.\<close>

definition two_answers :: "string list" where
  "two_answers = [[], []]"



text \<open>Three catalog records, for a bulk injection of three submissions.\<close>

definition three_lookup :: lookup where
  "three_lookup =
     \<lparr>abbreviations = [], titles = [],
      anime_data = [(21, op_anime), (22, opera_anime), (1, two_main_anime)]\<rparr>"

text \<open>
  The lines typed for one manual fact with the confidence \<open>5\<close>, followed by \<open>quit\<close>
  at the next prompt for the fact text.
\<close>

definition typed_lines :: "string list" where
  "typed_lines =
     [[], [], ''The sky is blue'', [], [], ''5'', [],
      [], [], ''quit'']"

section \<open>Properties of the dictionaries and of the parser\<close>

lemma lower_char_idem: "lower_char (lower_char c) = lower_char c"
  by (auto simp: lower_char_def Let_def)

lemma lower_idem: "lower (lower s) = lower s"
  by (simp add: lower_def lower_char_idem)

lemma set_dict_set: "set (dict_set d k v) \<subseteq> insert (k, v) (set d)"
  by (induction d) (auto split: if_splits)

lemma vals_dict_set: "snd ` set (dict_set d k v) \<subseteq> insert v (snd ` set d)"
  using set_dict_set[of d k v] by force

lemma map_of_dict_set: "map_of (dict_set d k v) = (map_of d)(k \<mapsto> v)"
  by (induction d) auto

lemma keys_dict_set: "fst ` set (dict_set d k v) = insert k (fst ` set d)"
proof -
  have "dom (map_of (dict_set d k v)) = insert k (dom (map_of d))"
    by (simp add: map_of_dict_set)
  then show ?thesis by (simp add: dom_map_of_conv_image_fst)
qed

lemma dict_item_Inr: "dict_item d k = Inr v \<longleftrightarrow> map_of d k = Some v"
  by (simp add: dict_item_def split: option.splits)

lemma dict_item_Inl: "dict_item d k = Inl e \<longleftrightarrow> map_of d k = None \<and> e = KeyError"
  by (auto simp: dict_item_def split: option.splits)

lemma dict_item_key: "k \<in> fst ` set d \<Longrightarrow> \<exists>v. dict_item d k = Inr v"
  by (cases "map_of d k") (auto simp: dict_item_def map_of_eq_None_iff)

lemma map_of_val: "map_of d k = Some v \<Longrightarrow> v \<in> snd ` set d"
  by (metis map_of_SomeD image_eqI snd_conv)

lemma title_step_skip:
  "elem_text te = None \<or> elem_text te = Some [] \<Longrightarrow> title_step aid st te = st"
  by (cases st) (auto simp: title_step_def)

lemma title_step_add:
  assumes "elem_text te = Some t" "t \<noteq> []"
  shows "title_step aid (ts, mt, lookup) te =
    (ts @ [\<lparr>text_of = t, type_of = get_default (elem_type te),
              lang_of = get_default (elem_lang te)\<rparr>],
     (if get_default (elem_type te) = ''main'' \<or> mt = None then Some t else mt),
     \<lparr>abbreviations =
        (if get_default (elem_type te) = ''short''
         then dict_set (abbreviations lookup) (lower t) aid else abbreviations lookup),
      titles = dict_set (titles lookup) (lower t) aid,
      anime_data = anime_data lookup\<rparr>)"
  using assms by (simp add: title_step_def Let_def)

lemma title_step_ids:
  assumes "ids_within lookup A" "aid \<in> A"
    and "title_step aid (ts, mt, lookup) te = (ts', mt', lookup')"
  shows "ids_within lookup' A \<and> anime_data lookup' = anime_data lookup"
proof (cases "elem_text te = None \<or> elem_text te = Some []")
  case True
  with assms show ?thesis by (simp add: title_step_skip)
next
  case False
  then obtain t where t: "elem_text te = Some t" "t \<noteq> []" by auto
  have v3: "snd ` set (abbreviations lookup) \<subseteq> A"
    and v4: "snd ` set (titles lookup) \<subseteq> A"
    using assms(1) by (simp_all add: ids_within_def)
  have v1: "snd ` set (dict_set (titles lookup) (lower t) aid) \<subseteq> A"
    using vals_dict_set[of "titles lookup" "lower t" aid] assms(2) v4 by blast
  have v2: "snd ` set (dict_set (abbreviations lookup) (lower t) aid) \<subseteq> A"
    using vals_dict_set[of "abbreviations lookup" "lower t" aid] assms(2) v3 by blast
  from assms(3) have l: "lookup' = \<lparr>abbreviations =
        (if get_default (elem_type te) = ''short''
         then dict_set (abbreviations lookup) (lower t) aid else abbreviations lookup),
      titles = dict_set (titles lookup) (lower t) aid,
      anime_data = anime_data lookup\<rparr>"
    by (simp add: title_step_add[OF t])
  show ?thesis
    unfolding l ids_within_def using v1 v2 v3 by simp
qed

lemma foldl_title_step_ids:
  assumes "ids_within lookup A" "aid \<in> A"
    and "foldl (title_step aid) (ts, mt, lookup) elems = (ts', mt', lookup')"
  shows "ids_within lookup' A \<and> anime_data lookup' = anime_data lookup"
  using assms
proof (induction elems arbitrary: ts mt lookup)
  case Nil
  then show ?case by simp
next
  case (Cons te elems)
  obtain ts1 mt1 l1 where s: "title_step aid (ts, mt, lookup) te = (ts1, mt1, l1)"
    by (cases "title_step aid (ts, mt, lookup) te") auto
  from title_step_ids[OF Cons.prems(1,2) s]
  have a: "ids_within l1 A" "anime_data l1 = anime_data lookup" by auto
  from Cons.prems(3) s
  have "foldl (title_step aid) (ts1, mt1, l1) elems = (ts', mt', lookup')" by simp
  from Cons.IH[OF a(1) Cons.prems(2) this] a(2) show ?case by simp
qed

text \<open>The state of the outer loop after one entry with a readable id.\<close>

lemma parse_entries_step:
  assumes "elem_aid anime_elem = Some aid_str" "aid_str \<noteq> []" "int_of aid_str = Some aid"
    and "title_loop aid (elem_titles anime_elem) lookup = (ts, mt, l1)"
  shows "parse_entries int_of (anime_elem # rest) lookup =
    parse_entries int_of rest
      (l1\<lparr>anime_data := dict_set (anime_data l1) aid
         \<lparr>anime_aid = aid, anime_main_title = mt, anime_titles = ts,
          anime_anidb_url = anidb_url_of aid\<rparr>\<rparr>)"
  using assms by simp

lemma parse_entries_skip:
  assumes "elem_aid anime_elem = None \<or> elem_aid anime_elem = Some []"
  shows "parse_entries int_of (anime_elem # rest) lookup = parse_entries int_of rest lookup"
  using assms by auto

lemma parse_entries_fail:
  assumes "elem_aid anime_elem = Some aid_str" "aid_str \<noteq> []" "int_of aid_str = None"
  shows "parse_entries int_of (anime_elem # rest) lookup = Inl ValueError"
  using assms by simp

lemma parse_entries_integrity:
  assumes "ref_integrity lookup" "parse_entries int_of entries lookup = Inr lookup'"
  shows "ref_integrity lookup'"
  using assms
proof (induction entries arbitrary: lookup)
  case Nil
  then show ?case by simp
next
  case (Cons anime_elem rest)
  show ?case
  proof (cases "elem_aid anime_elem = None \<or> elem_aid anime_elem = Some []")
    case True
    from Cons.prems(2) have "parse_entries int_of rest lookup = Inr lookup'"
      unfolding parse_entries_skip[OF True] .
    from Cons.IH[OF Cons.prems(1) this] show ?thesis .
  next
    case False
    then obtain aid_str where s: "elem_aid anime_elem = Some aid_str" "aid_str \<noteq> []"
      by auto
    show ?thesis
    proof (cases "int_of aid_str")
      case None
      from Cons.prems(2) show ?thesis
        unfolding parse_entries_fail[of anime_elem aid_str int_of, OF s None] by simp
    next
      case (Some aid)
      obtain ts mt l1 where t: "title_loop aid (elem_titles anime_elem) lookup = (ts, mt, l1)"
        by (cases "title_loop aid (elem_titles anime_elem) lookup") auto
      let ?A = "insert aid (fst ` set (anime_data lookup))"
      have "ids_within lookup ?A"
        using Cons.prems(1) by (auto simp: ref_integrity_def ids_within_def)
      from foldl_title_step_ids[OF this _ t[unfolded title_loop_def]]
      have l1: "ids_within l1 ?A" "anime_data l1 = anime_data lookup" by auto
      let ?l2 = "l1\<lparr>anime_data := dict_set (anime_data l1) aid
                   \<lparr>anime_aid = aid, anime_main_title = mt, anime_titles = ts,
                    anime_anidb_url = anidb_url_of aid\<rparr>\<rparr>"
      have ri: "ref_integrity ?l2"
        using l1 by (simp add: ref_integrity_def ids_within_def keys_dict_set)
      have "parse_entries int_of rest ?l2 = Inr lookup'"
        using Cons.prems(2) unfolding parse_entries_step[of anime_elem aid_str int_of, OF s Some t] .
      from Cons.IH[OF ri this] show ?thesis .
    qed
  qed
qed

lemma empty_lookup_integrity: "ref_integrity empty_lookup"
  by (simp add: ref_integrity_def empty_lookup_def)

lemma parse_anime_titles_Some:
  "parse_anime_titles int_of xml_file = Inr (Some lookup) \<longleftrightarrow>
     (\<exists>entries. xml_file = Some entries \<and>
        parse_entries int_of entries empty_lookup = Inr lookup)"
  by (auto simp: parse_anime_titles_def split: option.splits sum.splits)

lemma op_parse: "parse_entries int_of_decimal op_catalog empty_lookup = Inr op_lookup"
  by code_simp

lemma opera_parse: "parse_entries int_of_decimal opera_catalog empty_lookup = Inr opera_lookup"
  by code_simp

lemma film_parse: "parse_entries int_of_decimal film_catalog empty_lookup = Inr film_lookup"
  by code_simp

lemma two_main_parse:
  "parse_entries int_of_decimal two_main_catalog empty_lookup = Inr two_main_lookup"
  by code_simp

text \<open>
  C8. For every catalog the parser accepts, every id stored as a value of the
  abbreviation dictionary or of the title dictionary is a key of \<open>anime_data\<close>.
\<close>

theorem parser_referential_integrity:
  assumes "parse_anime_titles int_of xml_file = Inr (Some lookup)"
  shows "ref_integrity lookup"
proof -
  from assms obtain entries where "parse_entries int_of entries empty_lookup = Inr lookup"
    unfolding parse_anime_titles_Some by blast
  from parse_entries_integrity[OF empty_lookup_integrity this] show ?thesis .
qed

theorem parser_referential_integrity_witness:
  "parse_anime_titles int_of_decimal (Some op_catalog) = Inr (Some op_lookup)
   \<and> ref_integrity op_lookup"
proof -
  have p: "parse_anime_titles int_of_decimal (Some op_catalog) = Inr (Some op_lookup)"
    by (simp add: parse_anime_titles_def op_parse)
  from parser_referential_integrity[OF p] p show ?thesis by simp
qed


section \<open>Properties of the search\<close>

lemma search_anime_abbr_hit:
  assumes "map_of (abbreviations lookup) (lower query) = Some aid"
  shows "search_anime lookup query =
    (case dict_item (anime_data lookup) aid of
       Inl e \<Rightarrow> Inl e | Inr anime \<Rightarrow> Inr [result_of aid anime])"
  using assms by (simp add: search_anime_def Let_def)

lemma search_anime_title_hit:
  assumes "map_of (abbreviations lookup) (lower query) = None"
    and "map_of (titles lookup) (lower query) = Some aid"
  shows "search_anime lookup query =
    (case dict_item (anime_data lookup) aid of
       Inl e \<Rightarrow> Inl e | Inr anime \<Rightarrow> Inr [result_of aid anime])"
  using assms by (simp add: search_anime_def Let_def)

lemma search_anime_partial:
  assumes "map_of (abbreviations lookup) (lower query) = None"
    and "map_of (titles lookup) (lower query) = None"
  shows "search_anime lookup query =
    (case abbr_loop lookup (lower query) (abbreviations lookup) [] of
       Inl e \<Rightarrow> Inl e
     | Inr results \<Rightarrow>
        (case titles_loop lookup (lower query) (titles lookup) results of
           Inl e \<Rightarrow> Inl e
         | Inr results' \<Rightarrow> Inr (take 10 results')))"
  using assms by (simp add: search_anime_def Let_def)

lemma search_anime_lower: "search_anime lookup (lower query) = search_anime lookup query"
  by (simp add: search_anime_def lower_idem)

lemma abbr_loop_ok:
  "snd ` set items \<subseteq> fst ` set (anime_data lookup) \<Longrightarrow>
     \<exists>rs. abbr_loop lookup q items results = Inr rs"
proof (induction items arbitrary: results)
  case Nil
  then show ?case by simp
next
  case (Cons p items)
  obtain abbr aid where p: "p = (abbr, aid)" by (cases p)
  from Cons.prems p have "aid \<in> fst ` set (anime_data lookup)" by auto
  from dict_item_key[OF this] obtain a where a: "dict_item (anime_data lookup) aid = Inr a" ..
  from Cons.prems have sub: "snd ` set items \<subseteq> fst ` set (anime_data lookup)" by auto
  show ?case
  proof (cases "sublist q abbr \<or> sublist abbr q")
    case True
    then have "abbr_loop lookup q (p # items) results =
        abbr_loop lookup q items (results @ [result_of aid a])"
      unfolding p by (simp add: a)
    then show ?thesis using Cons.IH[OF sub, of "results @ [result_of aid a]"] by simp
  next
    case False
    then have "abbr_loop lookup q (p # items) results = abbr_loop lookup q items results"
      unfolding p by simp
    then show ?thesis using Cons.IH[OF sub, of results] by simp
  qed
qed

lemma titles_loop_ok:
  "snd ` set items \<subseteq> fst ` set (anime_data lookup) \<Longrightarrow>
     \<exists>rs. titles_loop lookup q items results = Inr rs"
proof (induction items arbitrary: results)
  case Nil
  then show ?case by simp
next
  case (Cons p items)
  obtain title aid where p: "p = (title, aid)" by (cases p)
  from Cons.prems p have "aid \<in> fst ` set (anime_data lookup)" by auto
  from dict_item_key[OF this] obtain a where a: "dict_item (anime_data lookup) aid = Inr a" ..
  from Cons.prems have sub: "snd ` set items \<subseteq> fst ` set (anime_data lookup)" by auto
  have "titles_loop lookup q (p # items) results = titles_loop lookup q items results
      \<or> titles_loop lookup q (p # items) results =
          titles_loop lookup q items (results @ [result_of aid a])"
    unfolding p by (simp add: a)
  then show ?case
    using Cons.IH[OF sub, of results] Cons.IH[OF sub, of "results @ [result_of aid a]"]
    by auto
qed

lemma abbr_loop_error: "abbr_loop lookup q items results = Inl e \<Longrightarrow> e = KeyError"
  by (induction lookup q items results rule: abbr_loop.induct)
     (auto simp: dict_item_Inl split: if_splits sum.splits)

lemma titles_loop_error: "titles_loop lookup q items results = Inl e \<Longrightarrow> e = KeyError"
  by (induction lookup q items results rule: titles_loop.induct)
     (auto simp: dict_item_Inl split: if_splits sum.splits)

lemma search_anime_length:
  assumes "search_anime lookup query = Inr rs"
  shows "length rs \<le> 10"
proof (cases "map_of (abbreviations lookup) (lower query)")
  case (Some aid)
  from assms show ?thesis
    unfolding search_anime_abbr_hit[OF Some] by (auto split: sum.splits)
next
  case None
  show ?thesis
  proof (cases "map_of (titles lookup) (lower query)")
    case (Some aid)
    from assms show ?thesis
      unfolding search_anime_title_hit[OF None Some] by (auto split: sum.splits)
  next
    case n2: None
    from assms show ?thesis
      unfolding search_anime_partial[OF None n2] by (auto split: sum.splits)
  qed
qed

lemma search_anime_error:
  assumes "search_anime lookup query = Inl e"
  shows "e = KeyError"
proof (cases "map_of (abbreviations lookup) (lower query)")
  case (Some aid)
  from assms show ?thesis
    unfolding search_anime_abbr_hit[OF Some] by (auto simp: dict_item_Inl split: sum.splits)
next
  case None
  show ?thesis
  proof (cases "map_of (titles lookup) (lower query)")
    case (Some aid)
    from assms show ?thesis
      unfolding search_anime_title_hit[OF None Some]
      by (auto simp: dict_item_Inl split: sum.splits)
  next
    case n2: None
    from assms show ?thesis
      unfolding search_anime_partial[OF None n2]
      by (auto dest: abbr_loop_error titles_loop_error split: sum.splits)
  qed
qed

lemma integrity_record:
  assumes "ref_integrity lookup"
    and "map_of (abbreviations lookup) k = Some aid \<or> map_of (titles lookup) k = Some aid"
  shows "\<exists>anime. map_of (anime_data lookup) aid = Some anime"
proof -
  from assms(2) have "aid \<in> snd ` set (abbreviations lookup) \<union> snd ` set (titles lookup)"
    using map_of_val[of "abbreviations lookup" k aid] map_of_val[of "titles lookup" k aid]
    by auto
  with assms(1) have "aid \<in> fst ` set (anime_data lookup)"
    unfolding ref_integrity_def by blast
  from dict_item_key[OF this] show ?thesis unfolding dict_item_Inr .
qed

lemma search_anime_ok:
  assumes "ref_integrity lookup"
  shows "\<exists>rs. search_anime lookup query = Inr rs"
proof -
  have A: "snd ` set (abbreviations lookup) \<subseteq> fst ` set (anime_data lookup)"
    and T: "snd ` set (titles lookup) \<subseteq> fst ` set (anime_data lookup)"
    using assms by (auto simp: ref_integrity_def)
  show ?thesis
  proof (cases "map_of (abbreviations lookup) (lower query)")
    case (Some aid)
    from integrity_record[OF assms disjI1, OF Some]
    obtain a where "map_of (anime_data lookup) aid = Some a" ..
    then show ?thesis
      unfolding search_anime_abbr_hit[OF Some] by (simp add: dict_item_def)
  next
    case None
    show ?thesis
    proof (cases "map_of (titles lookup) (lower query)")
      case (Some aid)
      from integrity_record[OF assms disjI2, OF Some]
      obtain a where "map_of (anime_data lookup) aid = Some a" ..
      then show ?thesis
        unfolding search_anime_title_hit[OF None Some] by (simp add: dict_item_def)
    next
      case n2: None
      obtain r3 where r3: "abbr_loop lookup (lower query) (abbreviations lookup) [] = Inr r3"
        using abbr_loop_ok[OF A] by blast
      obtain r4 where r4: "titles_loop lookup (lower query) (titles lookup) r3 = Inr r4"
        using titles_loop_ok[OF T] by blast
      show ?thesis by (simp add: search_anime_partial[OF None n2] r3 r4)
    qed
  qed
qed

text \<open>
  C1. When the lowercased query is a key of the abbreviation dictionary of a table with
  referential integrity, the search returns exactly the one result of the id stored under
  that key, whatever else would match, and every query with the same lowercase form gets
  the same answer.
\<close>

theorem exact_abbreviation_priority:
  assumes "ref_integrity lookup"
    and "map_of (abbreviations lookup) (lower query) = Some aid"
  shows "\<exists>anime. map_of (anime_data lookup) aid = Some anime
      \<and> search_anime lookup query
          = Inr [(aid, anime_main_title anime, anime_anidb_url anime)]
      \<and> (\<forall>q. lower q = lower query \<longrightarrow> search_anime lookup q = search_anime lookup query)"
proof -
  from integrity_record[OF assms(1) disjI1, OF assms(2)]
  obtain anime where a: "map_of (anime_data lookup) aid = Some anime" ..
  have s: "search_anime lookup query = Inr [(aid, anime_main_title anime, anime_anidb_url anime)]"
    unfolding search_anime_abbr_hit[OF assms(2)] by (simp add: dict_item_def a result_of_def)
  have c: "\<forall>q. lower q = lower query \<longrightarrow> search_anime lookup q = search_anime lookup query"
  proof (intro allI impI)
    fix q assume "lower q = lower query"
    then show "search_anime lookup q = search_anime lookup query"
      using search_anime_lower[of lookup q] search_anime_lower[of lookup query] by simp
  qed
  from a s c show ?thesis by blast
qed

theorem exact_abbreviation_priority_witness:
  "search_anime op_lookup ''OP'' = Inr [(21, Some ''One Piece'', ''https://anidb.net/?aid=21'')]
   \<and> search_anime op_lookup ''op'' = search_anime op_lookup ''OP''"
proof -
  have i: "ref_integrity op_lookup" by code_simp
  have k: "map_of (abbreviations op_lookup) (lower ''OP'') = Some 21" by code_simp
  from exact_abbreviation_priority[OF i k]
  obtain anime where a: "map_of (anime_data op_lookup) 21 = Some anime"
    and s: "search_anime op_lookup ''OP''
          = Inr [(21, anime_main_title anime, anime_anidb_url anime)]"
    and c: "\<forall>q. lower q = lower ''OP'' \<longrightarrow> search_anime op_lookup q = search_anime op_lookup ''OP''"
    by blast
  from a have "anime = op_anime" by (simp add: op_lookup_def)
  with s have s': "search_anime op_lookup ''OP''
      = Inr [(21, Some ''One Piece'', ''https://anidb.net/?aid=21'')]"
    by (simp add: op_anime_def)
  have "lower ''op'' = lower ''OP''" by code_simp
  with c have "search_anime op_lookup ''op'' = search_anime op_lookup ''OP''" by blast
  with s' show ?thesis by simp
qed

text \<open>
  C5. The search either returns a list of at most 10 results or raises \<open>KeyError\<close>, and
  it raises only on a table without referential integrity.
\<close>

theorem search_at_most_10:
  "(case search_anime lookup query of
      Inl e \<Rightarrow> e = KeyError \<and> \<not> ref_integrity lookup
    | Inr results \<Rightarrow> length results \<le> 10)"
proof (cases "search_anime lookup query")
  case (Inl e)
  then show ?thesis
    using search_anime_error[OF Inl] search_anime_ok[of lookup query] by auto
next
  case (Inr results)
  then show ?thesis using search_anime_length[OF Inr] by simp
qed

theorem search_at_most_10_witness:
  "ref_integrity many_lookup
   \<and> (\<exists>results. search_anime many_lookup ''A'' = Inr results \<and> length results = 10)"
proof -
  have i: "ref_integrity many_lookup" by code_simp
  have l: "map_sum id length (search_anime many_lookup ''A'') = Inr 10" by code_simp
  from search_at_most_10[of many_lookup "''A''"] i l show ?thesis
    by (cases "search_anime many_lookup ''A''") auto
qed


section \<open>The partial tiers of the search\<close>

lemma abbr_loop_eq:
  assumes "abbr_loop lookup q items results = Inr rs"
  shows "rs = results @ concat (map (\<lambda>(abbr, aid).
        if sublist q abbr \<or> sublist abbr q
        then (case map_of (anime_data lookup) aid of
                None \<Rightarrow> [] | Some anime \<Rightarrow> [result_of aid anime])
        else []) items)"
  using assms
proof (induction items arbitrary: results)
  case Nil
  then show ?case by simp
next
  case (Cons p items)
  obtain abbr aid where p: "p = (abbr, aid)" by (cases p)
  show ?case
  proof (cases "sublist q abbr \<or> sublist abbr q")
    case False
    with Cons.prems have "abbr_loop lookup q items results = Inr rs"
      unfolding p by simp
    from Cons.IH[OF this] False show ?thesis unfolding p by simp
  next
    case True
    show ?thesis
    proof (cases "map_of (anime_data lookup) aid")
      case None
      with True Cons.prems show ?thesis unfolding p by (simp add: dict_item_def)
    next
      case (Some a)
      with True Cons.prems
      have "abbr_loop lookup q items (results @ [result_of aid a]) = Inr rs"
        unfolding p by (simp add: dict_item_def)
      from Cons.IH[OF this] True Some show ?thesis unfolding p by simp
    qed
  qed
qed

lemma abbr_loop_tier3:
  "abbr_loop lookup q (abbreviations lookup) [] = Inr rs \<Longrightarrow> rs = tier3 lookup q"
  using abbr_loop_eq[of lookup q "abbreviations lookup" "[]" rs] by (simp add: tier3_def)

lemma titles_loop_tier4:
  assumes "titles_loop lookup q items results = Inr rs"
  shows "rs = results @ tier4_from lookup q items results"
  using assms
proof (induction items arbitrary: results)
  case Nil
  then show ?case by simp
next
  case (Cons p items)
  obtain title aid where p: "p = (title, aid)" by (cases p)
  show ?case
  proof (cases "sublist q title")
    case False
    with Cons.prems have "titles_loop lookup q items results = Inr rs"
      unfolding p by simp
    from Cons.IH[OF this] False show ?thesis unfolding p by simp
  next
    case True
    show ?thesis
    proof (cases "map_of (anime_data lookup) aid")
      case None
      with True Cons.prems show ?thesis unfolding p by (simp add: dict_item_def)
    next
      case (Some a)
      show ?thesis
      proof (cases "(aid, Some title, anime_anidb_url a) \<in> set results")
        case in_results: True
        with True Some Cons.prems have "titles_loop lookup q items results = Inr rs"
          unfolding p by (simp add: dict_item_def)
        from Cons.IH[OF this] True Some in_results show ?thesis unfolding p by simp
      next
        case False
        with True Some Cons.prems
        have "titles_loop lookup q items (results @ [result_of aid a]) = Inr rs"
          unfolding p by (simp add: dict_item_def)
        from Cons.IH[OF this] True Some False show ?thesis unfolding p by simp
      qed
    qed
  qed
qed

lemma titles_loop_records:
  assumes "titles_loop lookup q items results = Inr rs"
    and "(title, aid) \<in> set items" "sublist q title"
  shows "\<exists>anime. map_of (anime_data lookup) aid = Some anime"
  using assms
proof (induction items arbitrary: results)
  case Nil
  then show ?case by simp
next
  case (Cons p items)
  obtain title' aid' where p: "p = (title', aid')" by (cases p)
  have rest: "\<exists>results'. titles_loop lookup q items results' = Inr rs"
    using Cons.prems(1) unfolding p
    by (auto simp: dict_item_def split: if_splits option.splits)
  show ?case
  proof (cases "(title, aid) = p")
    case True
    with Cons.prems(1,3) show ?thesis
      unfolding p by (cases "map_of (anime_data lookup) aid") (auto simp: dict_item_def)
  next
    case False
    with Cons.prems(2) have "(title, aid) \<in> set items" by simp
    with rest Cons.IH Cons.prems(3) show ?thesis by blast
  qed
qed

lemma tier4_from_contributes:
  assumes "(title, aid) \<in> set items" "sublist q title"
    and "map_of (anime_data lookup) aid = Some anime"
  shows "result_of aid anime \<in> set (tier4_from lookup q items seen)
      \<or> (aid, Some title, anime_anidb_url anime) \<in> set (seen @ tier4_from lookup q items seen)"
  using assms(1)
proof (induction items arbitrary: seen)
  case Nil
  then show ?case by simp
next
  case (Cons p items)
  obtain title' aid' where p: "p = (title', aid')" by (cases p)
  let ?whole = "tier4_from lookup q (p # items) seen"
  show ?case
  proof (cases "(title, aid) = p")
    case True
    then have h: "title' = title" "aid' = aid" unfolding p by simp_all
    show ?thesis
    proof (cases "(aid, Some title, anime_anidb_url anime) \<in> set seen")
      case True
      then show ?thesis by simp
    next
      case False
      then have "?whole = result_of aid anime
          # tier4_from lookup q items (seen @ [result_of aid anime])"
        unfolding p h using assms(2,3) by simp
      then show ?thesis by simp
    qed
  next
    case False
    with Cons.prems have tail: "(title, aid) \<in> set items" by simp
    have "?whole = tier4_from lookup q items seen
        \<or> (\<exists>r. ?whole = r # tier4_from lookup q items (seen @ [r]))"
      unfolding p by (simp add: result_of_def split: option.splits)
    then consider (same) "?whole = tier4_from lookup q items seen"
      | (more) r where "?whole = r # tier4_from lookup q items (seen @ [r])"
      by blast
    then show ?thesis
    proof cases
      case same
      from Cons.IH[OF tail, of seen] show ?thesis unfolding same .
    next
      case (more r)
      from Cons.IH[OF tail, of "seen @ [r]"] show ?thesis unfolding more by auto
    qed
  qed
qed

text \<open>
  C2, as the claim states it, fails: on the table parsed from the catalog with One Piece
  (short title OP) and Opera, the query \<open>ope\<close> has no exact match, the abbreviation
  \<open>op\<close> is a partial match, and the result still carries the title match Opera after it.
\<close>

theorem tier4_contributes_after_tier3:
  "map_of (abbreviations opera_lookup) (lower ''ope'') = None
   \<and> map_of (titles opera_lookup) (lower ''ope'') = None
   \<and> abbr_loop opera_lookup (lower ''ope'') (abbreviations opera_lookup) []
       = Inr [(21, Some ''One Piece'', ''https://anidb.net/?aid=21'')]
   \<and> search_anime opera_lookup ''ope''
       = Inr [(21, Some ''One Piece'', ''https://anidb.net/?aid=21''),
              (22, Some ''Opera'', ''https://anidb.net/?aid=22'')]"
  by code_simp

text \<open>
  C2, amended. Tiers 1 and 2 short-circuit: when the lowercased query is an abbreviation
  key, and failing that when it is a title key, the result is exactly the one result of
  the id stored under it. Tier 3 does not short-circuit: for a query with no exact match
  the result is the first 10 elements of the partial abbreviation matches, in the order
  of the abbreviation keys, followed by the results of the title tier; and every title
  key that contains the query either adds the result of its id or has the triple of its
  id, the key and the URL among these results.
\<close>

theorem search_tiers:
  assumes "search_anime lookup query = Inr results"
  shows "(\<forall>aid. map_of (abbreviations lookup) (lower query) = Some aid \<longrightarrow>
            (\<exists>anime. map_of (anime_data lookup) aid = Some anime
               \<and> results = [result_of aid anime]))
      \<and> (\<forall>aid. map_of (abbreviations lookup) (lower query) = None
               \<and> map_of (titles lookup) (lower query) = Some aid \<longrightarrow>
            (\<exists>anime. map_of (anime_data lookup) aid = Some anime
               \<and> results = [result_of aid anime]))
      \<and> (map_of (abbreviations lookup) (lower query) = None
           \<and> map_of (titles lookup) (lower query) = None \<longrightarrow>
            results = take 10 (tier3 lookup (lower query) @ tier4 lookup (lower query))
            \<and> (\<forall>title aid. (title, aid) \<in> set (titles lookup) \<and> sublist (lower query) title \<longrightarrow>
                  (\<exists>anime. map_of (anime_data lookup) aid = Some anime
                     \<and> (result_of aid anime \<in> set (tier4 lookup (lower query))
                         \<or> (aid, Some title, anime_anidb_url anime)
                             \<in> set (tier3 lookup (lower query) @ tier4 lookup (lower query))))))"
proof (intro conjI allI impI)
  fix aid assume a: "map_of (abbreviations lookup) (lower query) = Some aid"
  from assms show "\<exists>anime. map_of (anime_data lookup) aid = Some anime
               \<and> results = [result_of aid anime]"
    unfolding search_anime_abbr_hit[OF a]
    by (cases "map_of (anime_data lookup) aid") (auto simp: dict_item_def)
next
  fix aid assume "map_of (abbreviations lookup) (lower query) = None
               \<and> map_of (titles lookup) (lower query) = Some aid"
  then have a: "map_of (abbreviations lookup) (lower query) = None"
    and t: "map_of (titles lookup) (lower query) = Some aid" by simp_all
  from assms show "\<exists>anime. map_of (anime_data lookup) aid = Some anime
               \<and> results = [result_of aid anime]"
    unfolding search_anime_title_hit[OF a t]
    by (cases "map_of (anime_data lookup) aid") (auto simp: dict_item_def)
next
  assume "map_of (abbreviations lookup) (lower query) = None
           \<and> map_of (titles lookup) (lower query) = None"
  then have a: "map_of (abbreviations lookup) (lower query) = None"
    and t: "map_of (titles lookup) (lower query) = None" by simp_all
  from assms obtain r3 r4
    where r3: "abbr_loop lookup (lower query) (abbreviations lookup) [] = Inr r3"
      and r4: "titles_loop lookup (lower query) (titles lookup) r3 = Inr r4"
      and rs: "results = take 10 r4"
    unfolding search_anime_partial[OF a t] by (auto split: sum.splits)
  from abbr_loop_tier3[OF r3] have r3': "r3 = tier3 lookup (lower query)" .
  from titles_loop_tier4[OF r4] have "r4 = r3 @ tier4 lookup (lower query)"
    unfolding tier4_def r3' .
  with rs r3' show "results = take 10 (tier3 lookup (lower query) @ tier4 lookup (lower query))"
    by simp
next
  fix title aid
  assume "map_of (abbreviations lookup) (lower query) = None
           \<and> map_of (titles lookup) (lower query) = None"
  then have a: "map_of (abbreviations lookup) (lower query) = None"
    and t: "map_of (titles lookup) (lower query) = None" by simp_all
  assume "(title, aid) \<in> set (titles lookup) \<and> sublist (lower query) title"
  then have m: "(title, aid) \<in> set (titles lookup)" and s: "sublist (lower query) title"
    by simp_all
  from assms obtain r3 r4
    where r4: "titles_loop lookup (lower query) (titles lookup) r3 = Inr r4"
    unfolding search_anime_partial[OF a t] by (auto split: sum.splits)
  from titles_loop_records[OF r4 m s]
  obtain anime where r: "map_of (anime_data lookup) aid = Some anime" ..
  from tier4_from_contributes[OF m s r, of "tier3 lookup (lower query)"]
  have "result_of aid anime \<in> set (tier4 lookup (lower query))
      \<or> (aid, Some title, anime_anidb_url anime)
          \<in> set (tier3 lookup (lower query) @ tier4 lookup (lower query))"
    unfolding tier4_def .
  with r show "\<exists>anime. map_of (anime_data lookup) aid = Some anime
      \<and> (result_of aid anime \<in> set (tier4 lookup (lower query))
          \<or> (aid, Some title, anime_anidb_url anime)
              \<in> set (tier3 lookup (lower query) @ tier4 lookup (lower query)))"
    by blast
qed

theorem search_tiers_witness:
  "tier3 opera_lookup (lower ''ope'') = [(21, Some ''One Piece'', ''https://anidb.net/?aid=21'')]
   \<and> tier4 opera_lookup (lower ''ope'') = [(22, Some ''Opera'', ''https://anidb.net/?aid=22'')]
   \<and> [(21, Some ''One Piece'', ''https://anidb.net/?aid=21''),
       (22, Some ''Opera'', ''https://anidb.net/?aid=22'')]
        = take 10 (tier3 opera_lookup (lower ''ope'') @ tier4 opera_lookup (lower ''ope''))"
proof -
  have a: "map_of (abbreviations opera_lookup) (lower ''ope'') = None" by code_simp
  have t: "map_of (titles opera_lookup) (lower ''ope'') = None" by code_simp
  have s: "search_anime opera_lookup ''ope''
       = Inr [(21, Some ''One Piece'', ''https://anidb.net/?aid=21''),
              (22, Some ''Opera'', ''https://anidb.net/?aid=22'')]"
    by code_simp
  have t3: "tier3 opera_lookup (lower ''ope'')
      = [(21, Some ''One Piece'', ''https://anidb.net/?aid=21'')]" by code_simp
  have t4: "tier4 opera_lookup (lower ''ope'')
      = [(22, Some ''Opera'', ''https://anidb.net/?aid=22'')]" by code_simp
  from search_tiers[OF s] a t
  have "[(21, Some ''One Piece'', ''https://anidb.net/?aid=21''),
         (22, Some ''Opera'', ''https://anidb.net/?aid=22'')]
        = take 10 (tier3 opera_lookup (lower ''ope'') @ tier4 opera_lookup (lower ''ope''))"
    by blast
  with t3 t4 show ?thesis by blast
qed

text \<open>
  C3. The test before a title result is appended compares the triple built from the title
  key, while the triple appended carries the main title: the table parsed from an entry
  with the titles One Piece and One Piece Film answers the query \<open>one p\<close> with the same
  triple twice.
\<close>

theorem tier4_appends_equal_triple:
  "parse_anime_titles int_of_decimal (Some film_catalog) = Inr (Some film_lookup)
   \<and> search_anime film_lookup ''one p''
       = Inr [(21, Some ''One Piece'', ''https://anidb.net/?aid=21''),
              (21, Some ''One Piece'', ''https://anidb.net/?aid=21'')]"
proof -
  have "parse_anime_titles int_of_decimal (Some film_catalog) = Inr (Some film_lookup)"
    by (simp add: parse_anime_titles_def film_parse)
  moreover have "search_anime film_lookup ''one p''
       = Inr [(21, Some ''One Piece'', ''https://anidb.net/?aid=21''),
              (21, Some ''One Piece'', ''https://anidb.net/?aid=21'')]"
    by code_simp
  ultimately show ?thesis by simp
qed


section \<open>The main title of an entry\<close>

lemma last_main_else_first_snoc:
  "last_main_else_first (ts @ [t]) =
     (if type_of t = ''main'' \<or> last_main_else_first ts = None then Some (text_of t)
      else last_main_else_first ts)"
  by (cases ts) (auto simp: last_main_else_first_def main_titles_def first_title_def)

lemma stored_titles_Nil: "stored_titles [] = []"
  by (simp add: stored_titles_def List.map_filter_def)

lemma stored_titles_skip:
  "elem_text te = None \<or> elem_text te = Some [] \<Longrightarrow>
     stored_titles (te # elems) = stored_titles elems"
  by (auto simp: stored_titles_def List.map_filter_def)

lemma stored_titles_add:
  "elem_text te = Some t \<Longrightarrow> t \<noteq> [] \<Longrightarrow>
     stored_titles (te # elems) =
       \<lparr>text_of = t, type_of = get_default (elem_type te),
        lang_of = get_default (elem_lang te)\<rparr> # stored_titles elems"
  by (simp add: stored_titles_def List.map_filter_def)

lemma foldl_title_step_main:
  assumes "foldl (title_step aid) (ts, mt, lookup) elems = (ts', mt', lookup')"
    and "mt = last_main_else_first ts"
  shows "ts' = ts @ stored_titles elems \<and> mt' = last_main_else_first ts'"
  using assms
proof (induction elems arbitrary: ts mt lookup)
  case Nil
  then show ?case by (auto simp: stored_titles_Nil)
next
  case (Cons te elems)
  show ?case
  proof (cases "elem_text te = None \<or> elem_text te = Some []")
    case True
    from Cons.prems(1)
    have "foldl (title_step aid) (ts, mt, lookup) elems = (ts', mt', lookup')"
      by (simp add: title_step_skip[OF True])
    from Cons.IH[OF this Cons.prems(2)] show ?thesis
      by (simp add: stored_titles_skip[OF True])
  next
    case False
    then obtain t where t: "elem_text te = Some t" "t \<noteq> []" by auto
    let ?t = "\<lparr>text_of = t, type_of = get_default (elem_type te),
                lang_of = get_default (elem_lang te)\<rparr>"
    let ?mt = "if get_default (elem_type te) = ''main'' \<or> mt = None then Some t else mt"
    obtain l1 where s: "title_step aid (ts, mt, lookup) te = (ts @ [?t], ?mt, l1)"
      by (simp add: title_step_add[OF t])
    have m: "?mt = last_main_else_first (ts @ [?t])"
      unfolding last_main_else_first_snoc using Cons.prems(2) by simp
    from Cons.prems(1) s
    have "foldl (title_step aid) (ts @ [?t], ?mt, l1) elems = (ts', mt', lookup')"
      by simp
    from Cons.IH[OF this m] show ?thesis
      by (simp add: stored_titles_add[OF t])
  qed
qed

lemma title_loop_main:
  assumes "title_loop aid elems lookup = (ts, mt, lookup')"
  shows "ts = stored_titles elems \<and> mt = last_main_else_first ts"
proof -
  have "None = last_main_else_first []"
    by (simp add: last_main_else_first_def main_titles_def first_title_def)
  from foldl_title_step_main[OF assms[unfolded title_loop_def] this] show ?thesis by simp
qed

lemma list_all_dict_set:
  "list_all P d \<Longrightarrow> P (k, v) \<Longrightarrow> list_all P (dict_set d k v)"
  by (induction d) auto

lemma parse_entries_main:
  assumes "main_title_ok lookup" "parse_entries int_of entries lookup = Inr lookup'"
  shows "main_title_ok lookup'"
  using assms
proof (induction entries arbitrary: lookup)
  case Nil
  then show ?case by simp
next
  case (Cons anime_elem rest)
  show ?case
  proof (cases "elem_aid anime_elem = None \<or> elem_aid anime_elem = Some []")
    case True
    from Cons.prems(2) have "parse_entries int_of rest lookup = Inr lookup'"
      unfolding parse_entries_skip[OF True] .
    from Cons.IH[OF Cons.prems(1) this] show ?thesis .
  next
    case False
    then obtain aid_str where s: "elem_aid anime_elem = Some aid_str" "aid_str \<noteq> []"
      by auto
    show ?thesis
    proof (cases "int_of aid_str")
      case None
      from Cons.prems(2) show ?thesis
        unfolding parse_entries_fail[of anime_elem aid_str int_of, OF s None] by simp
    next
      case (Some aid)
      obtain ts mt l1 where t: "title_loop aid (elem_titles anime_elem) lookup = (ts, mt, l1)"
        by (cases "title_loop aid (elem_titles anime_elem) lookup") auto
      have "ids_within lookup UNIV" by (simp add: ids_within_def)
      from foldl_title_step_ids[OF this _ t[unfolded title_loop_def]]
      have d: "anime_data l1 = anime_data lookup" by simp
      from title_loop_main[OF t] have m: "mt = last_main_else_first ts" by simp
      let ?l2 = "l1\<lparr>anime_data := dict_set (anime_data l1) aid
                   \<lparr>anime_aid = aid, anime_main_title = mt, anime_titles = ts,
                    anime_anidb_url = anidb_url_of aid\<rparr>\<rparr>"
      have ok: "main_title_ok ?l2"
        using Cons.prems(1) d m by (simp add: main_title_ok_def list_all_dict_set)
      have "parse_entries int_of rest ?l2 = Inr lookup'"
        using Cons.prems(2) unfolding parse_entries_step[of anime_elem aid_str int_of, OF s Some t] .
      from Cons.IH[OF ok this] show ?thesis .
    qed
  qed
qed

text \<open>
  C4, as the claim states it, fails: for an entry whose titles Alpha and Beta are both
  tagged \<open>main\<close>, the parser stores the main title Beta, while the first title tagged
  \<open>main\<close> is Alpha.
\<close>

theorem later_main_title_wins:
  "parse_anime_titles int_of_decimal (Some two_main_catalog) = Inr (Some two_main_lookup)
   \<and> map_of (anime_data two_main_lookup) 1 = Some two_main_anime
   \<and> anime_main_title two_main_anime = Some ''Beta''
   \<and> first_main_else_first (anime_titles two_main_anime) = Some ''Alpha''"
proof -
  have "parse_anime_titles int_of_decimal (Some two_main_catalog) = Inr (Some two_main_lookup)"
    by (simp add: parse_anime_titles_def two_main_parse)
  moreover have "map_of (anime_data two_main_lookup) 1 = Some two_main_anime"
    by (simp add: two_main_lookup_def)
  moreover have "anime_main_title two_main_anime = Some ''Beta''"
    by (simp add: two_main_anime_def)
  moreover have "first_main_else_first (anime_titles two_main_anime) = Some ''Alpha''"
    by code_simp
  ultimately show ?thesis by simp
qed

text \<open>
  C4, amended. For every entry, the titles the parser keeps are the titles with a
  non-empty text, in catalog order, and the main title selected is the text of the last
  of them tagged \<open>main\<close> if one is tagged \<open>main\<close>, and otherwise the text of the first
  of them; every record of an accepted catalog carries the main title so selected from
  its own title list.
\<close>

theorem main_title_policy:
  "fst (title_loop aid elems lookup0) = stored_titles elems
   \<and> fst (snd (title_loop aid elems lookup0)) = last_main_else_first (stored_titles elems)
   \<and> (parse_anime_titles int_of xml_file = Inr (Some lookup)
        \<and> map_of (anime_data lookup) aid' = Some anime
      \<longrightarrow> anime_main_title anime = last_main_else_first (anime_titles anime))"
proof -
  obtain ts mt l1 where t: "title_loop aid elems lookup0 = (ts, mt, l1)"
    by (cases "title_loop aid elems lookup0") auto
  from title_loop_main[OF t] t
  have a: "fst (title_loop aid elems lookup0) = stored_titles elems"
    and b: "fst (snd (title_loop aid elems lookup0)) = last_main_else_first (stored_titles elems)"
    by simp_all
  have c: "anime_main_title anime = last_main_else_first (anime_titles anime)"
    if p: "parse_anime_titles int_of xml_file = Inr (Some lookup)"
      and r: "map_of (anime_data lookup) aid' = Some anime"
  proof -
    from p obtain entries where "parse_entries int_of entries empty_lookup = Inr lookup"
      unfolding parse_anime_titles_Some by blast
    moreover have "main_title_ok empty_lookup"
      by (simp add: main_title_ok_def empty_lookup_def)
    ultimately have "main_title_ok lookup" using parse_entries_main by blast
    moreover from r have "(aid', anime) \<in> set (anime_data lookup)" by (rule map_of_SomeD)
    ultimately show ?thesis
      unfolding main_title_ok_def list_all_iff by blast
  qed
  from a b c show ?thesis by blast
qed

theorem main_title_policy_witness:
  "anime_main_title two_main_anime = last_main_else_first (anime_titles two_main_anime)
   \<and> last_main_else_first (anime_titles two_main_anime) = Some ''Beta''"
proof -
  have p: "parse_anime_titles int_of_decimal (Some two_main_catalog) = Inr (Some two_main_lookup)"
    by (simp add: parse_anime_titles_def two_main_parse)
  have r: "map_of (anime_data two_main_lookup) 1 = Some two_main_anime"
    by (simp add: two_main_lookup_def)
  have v: "last_main_else_first (anime_titles two_main_anime) = Some ''Beta''"
    by code_simp
  from main_title_policy[of _ _ _ int_of_decimal "Some two_main_catalog" two_main_lookup 1
      two_main_anime] p r v
  show ?thesis by simp
qed


section \<open>The bulk injection and the scraping run\<close>

lemma inject_loop_tally:
  "success_count (inject_loop e n idx items st) + error_count (inject_loop e n idx items st)
     = success_count st + error_count st + length items
   \<and> length (requests (inject_loop e n idx items st)) = length (requests st) + length items"
proof (induction items arbitrary: idx st)
  case Nil
  then show ?case by simp
next
  case (Cons p items)
  obtain aid a where p: "p = (aid, a)" by (cases p)
  let ?st1 = "if idx mod 500 = 0
              then st\<lparr>printed := printed st @
                     [Progress idx n (success_count st) (error_count st)]\<rparr>
              else st"
  let ?p = "inject_payload e idx a"
  let ?st2 = "?st1\<lparr>requests := requests ?st1 @ [?p]\<rparr>"
  obtain st3 where step: "inject_loop e n idx (p # items) st = inject_loop e n (idx + 1) items st3"
    and c: "success_count st3 + error_count st3 = success_count st + error_count st + 1"
    and r: "length (requests st3) = length (requests st) + 1"
  proof (cases "http_post e idx ?p")
    case Raised
    show ?thesis
      by (rule that[of "?st2\<lparr>error_count := error_count ?st2 + 1,
                         printed := printed ?st2 @ [PostError (anime_main_title a)]\<rparr>"])
         (simp_all add: p Raised Let_def)
  next
    case (Response status_code body)
    show ?thesis
    proof (cases "status_code = 200 \<or> status_code = 201")
      case True
      show ?thesis
        by (rule that[of "?st2\<lparr>success_count := success_count ?st2 + 1\<rparr>"])
           (use True in \<open>simp_all add: p Response Let_def\<close>)
    next
      case False
      show ?thesis
        by (rule that[of "?st2\<lparr>error_count := error_count ?st2 + 1,
                         printed := printed ?st2 @
                           [HttpFailure status_code (anime_main_title a)]\<rparr>"])
           (use False in \<open>simp_all add: p Response Let_def\<close>)
    qed
  qed
  from Cons.IH[of "idx + 1" st3] c r show ?case unfolding step by simp
qed

text \<open>
  The bulk injection keeps the \<open>try\<close> inside its loop: it submits every record and its
  two counters add up to the number of records, whatever the webhook answers.
\<close>

lemma inject_tally:
  "success_count (inject_to_knowledge_base e lookup)
     + error_count (inject_to_knowledge_base e lookup) = length (anime_data lookup)
   \<and> length (requests (inject_to_knowledge_base e lookup)) = length (anime_data lookup)"
  using inject_loop_tally[of e "length (anime_data lookup)" 1 "anime_data lookup"
      "\<lparr>success_count = 0, error_count = 0, requests = [], printed = []\<rparr>"]
  by (simp add: inject_to_knowledge_base_def Let_def)

lemma inject_three:
  "success_count (inject_to_knowledge_base demo_env three_lookup) = 2
   \<and> error_count (inject_to_knowledge_base demo_env three_lookup) = 1
   \<and> length (requests (inject_to_knowledge_base demo_env three_lookup)) = 3"
  by code_simp






text \<open>
  C6. A batch of three URLs, each fetched with success, given to the scraping function:
  every pass of the first loop ends in a caught \<open>NameError\<close>, the function then raises
  \<open>NameError\<close>, and no submission is made: there are no three outcomes and no tally.
\<close>

theorem scrape_batch_of_three:
  "scrape_and_send_to_n8n demo_env two_answers three_urls None =
     \<lparr>outcome = Inl NameError, posted = [],
      shown = [Scraping ''https://a.example/1'', Scraped ''page'',
               ErrorScraping ''https://a.example/1'' NameError,
               Scraping ''https://b.example/2'', Scraped ''page'',
               ErrorScraping ''https://b.example/2'' NameError,
               Scraping ''https://c.example/3'', Scraped ''page'',
               ErrorScraping ''https://c.example/3'' NameError]\<rparr>"
  by code_simp

text \<open>
  The second loop of the scraping function, were it reached with three facts: its \<open>try\<close>
  is around the loop, so the exception of one submission ends the loop before the next.
\<close>

lemma send_loop_stops:
  assumes "http_post e 1 f1 = Response 200 body" "http_post e 2 f2 = Raised"
  shows "posts (send_loop e 3 1 [f1, f2, f3] \<lparr>posts = [], prints = []\<rparr>) = [f1, f2]"
  using assms by (simp add: Let_def numeral_2_eq_2)


section \<open>The domain exclusion check\<close>

























section \<open>The confidence of a submitted payload\<close>

text \<open>
  The value the manual path submits lies in [0,1] exactly when the confidence line is
  empty, refused by \<open>float\<close>, or read as a value in [0,1]: the path makes no range check.
\<close>

lemma read_confidence_range:
  "(0 \<le> read_confidence float_of s \<and> read_confidence float_of s \<le> 1)
     \<longleftrightarrow> (s = [] \<or> float_of s = None \<or> (\<exists>x. float_of s = Some x \<and> 0 \<le> x \<and> x \<le> 1))"
  by (cases "float_of s") (auto simp: read_confidence_def)

lemma manual_payload_confidence:
  "payload_confidence (manual_payload e float_of k url ttl txt tgs src conf rel)
     = read_confidence float_of conf"
  by (simp add: manual_payload_def)

lemma inject_payload_confidence: "payload_confidence (inject_payload e idx a) = 95 / 100"
  by (simp add: inject_payload_def)

text \<open>
  C9. The user types one fact with the confidence \<open>5\<close> and then \<open>quit\<close>: the entry
  path returns normally after one submission, whose payload carries the confidence 5,
  outside [0,1].
\<close>

theorem confidence_out_of_range:
  "outcome (manual_fact_entry_and_send demo_env float_of_decimal None typed_lines) = Inr ()
   \<and> map payload_confidence
         (posted (manual_fact_entry_and_send demo_env float_of_decimal None typed_lines)) = [5]
   \<and> \<not> (5 :: real) \<le> 1"
proof -
  have "outcome (manual_fact_entry_and_send demo_env float_of_decimal None typed_lines) = Inr ()"
    by code_simp
  moreover have "map payload_confidence
         (posted (manual_fact_entry_and_send demo_env float_of_decimal None typed_lines)) = [5]"
    by code_simp
  ultimately show ?thesis by simp
qed

end
